theory Spec2Isabelle
  imports Complex_Main "HOL-Library.Word"
begin

unbundle bit_operations_syntax

section \<open>JavaScript values\<close>

text \<open>
  A JavaScript string is a sequence of UTF-16 code units. String literals of the source
  are written with \<open>js\<close>; every character of the Latin-1 range is the code unit of the
  same number, so an accented letter is spliced in by its number.
\<close>

type_synonym code_unit = "16 word"
type_synonym jsstring = "code_unit list"
type_synonym byte = "8 word"

definition js :: "string \<Rightarrow> jsstring" where
  "js s = map of_char s"

text \<open>Truthiness of \<open>string | null | undefined\<close>: only a non-empty string is truthy.\<close>

fun truthy :: "jsstring option \<Rightarrow> bool" where
  "truthy None = False"
| "truthy (Some s) = (s \<noteq> [])"

text \<open>The exceptions the modelled code can meet.\<close>

datatype js_error =
    InvalidCharacterError   \<comment> \<open>\<open>window.atob\<close> on a string that is not base64\<close>
  | RangeError              \<comment> \<open>\<open>new Int16Array(buffer)\<close> on a buffer of odd byte length\<close>
  | NotSupportedError       \<comment> \<open>Web Audio: a refused context, or \<open>createBuffer\<close> with zero frames\<close>
  | TypeError               \<comment> \<open>\<open>new\<close> of undefined, a method of null\<close>
  | ApiError                \<comment> \<open>a rejected call of the Gemini SDK\<close>

section \<open>Base64\<close>

text \<open>The alphabet of RFC 4648, table 1: the character of value \<open>n\<close> is at index \<open>n\<close>.\<close>

definition base64_alphabet :: jsstring where
  "base64_alphabet =
     js ''ABCDEFGHIJKLMNOPQRSTUVWXYZabcdefghijklmnopqrstuvwxyz0123456789+/''"

definition base64_char :: "nat \<Rightarrow> code_unit" where
  "base64_char n = base64_alphabet ! n"

fun index_of :: "'a \<Rightarrow> 'a list \<Rightarrow> nat option" where
  "index_of x [] = None"
| "index_of x (y # ys) =
     (if x = y then Some 0 else map_option Suc (index_of x ys))"

definition base64_value :: "code_unit \<Rightarrow> nat option" where
  "base64_value c = index_of c base64_alphabet"

definition pad :: code_unit where
  "pad = 0x3D"

text \<open>
  The encoder that produces the payload (\<open>Buffer.toString("base64")\<close> in
  \<open>server.ts\<close>, the inline data of the speech model): RFC 4648 with padding, three
  bytes to four characters.
\<close>

fun encode_base64 :: "byte list \<Rightarrow> jsstring" where
  "encode_base64 (x # y # z # rest) =
     (let n = unat x * 65536 + unat y * 256 + unat z
      in [base64_char (n div 262144), base64_char (n div 4096 mod 64),
          base64_char (n div 64 mod 64), base64_char (n mod 64)])
     @ encode_base64 rest"
| "encode_base64 [x, y] =
     (let n = (unat x * 256 + unat y) * 4
      in [base64_char (n div 4096), base64_char (n div 64 mod 64),
          base64_char (n mod 64), pad])"
| "encode_base64 [x] =
     (let n = unat x * 16
      in [base64_char (n div 64), base64_char (n mod 64), pad, pad])"
| "encode_base64 [] = []"

text \<open>
  \<open>window.atob\<close> is the forgiving-base64 decode of the WHATWG Infra standard:
  ASCII whitespace is removed; when the length is a multiple of four, one or two trailing
  \<open>=\<close> are removed; a length of remainder one, or a character outside the alphabet,
  is a failure; every four characters give three bytes, and a rest of two or three
  characters gives one or two bytes, the surplus bits dropped.
\<close>

definition ascii_whitespace :: "code_unit \<Rightarrow> bool" where
  "ascii_whitespace c \<longleftrightarrow> c = 0x09 \<or> c = 0x0A \<or> c = 0x0C \<or> c = 0x0D \<or> c = 0x20"

definition strip_padding :: "jsstring \<Rightarrow> jsstring" where
  "strip_padding d =
     (if length d mod 4 = 0 \<and> d \<noteq> [] \<and> last d = pad
      then (if butlast d \<noteq> [] \<and> last (butlast d) = pad
            then butlast (butlast d) else butlast d)
      else d)"

fun those_values :: "jsstring \<Rightarrow> nat list option" where
  "those_values [] = Some []"
| "those_values (c # cs) =
     (case base64_value c of
        None \<Rightarrow> None
      | Some v \<Rightarrow> map_option ((#) v) (those_values cs))"

fun decode_sextets :: "nat list \<Rightarrow> byte list" where
  "decode_sextets (a # b # c # d # rest) =
     (let n = ((a * 64 + b) * 64 + c) * 64 + d
      in [of_nat (n div 65536), of_nat (n div 256 mod 256), of_nat (n mod 256)])
     @ decode_sextets rest"
| "decode_sextets [a, b, c] =
     (let n = ((a * 64 + b) * 64 + c) div 4
      in [of_nat (n div 256), of_nat (n mod 256)])"
| "decode_sextets [a, b] = [of_nat ((a * 64 + b) div 16)]"
| "decode_sextets [a] = []"
| "decode_sextets [] = []"

definition forgiving_base64_decode :: "jsstring \<Rightarrow> js_error + byte list" where
  "forgiving_base64_decode data =
     (let d = strip_padding (filter (\<lambda>c. \<not> ascii_whitespace c) data)
      in if length d mod 4 = 1 then Inl InvalidCharacterError
         else (case those_values d of
                 None \<Rightarrow> Inl InvalidCharacterError
               | Some vs \<Rightarrow> Inr (decode_sextets vs)))"

text \<open>\<open>atob\<close> returns a binary string: one code unit per byte, of the byte's value.\<close>

definition atob :: "jsstring \<Rightarrow> js_error + jsstring" where
  "atob data = map_sum id (map ucast) (forgiving_base64_decode data)"

text \<open>
  For the proofs: the sextets the encoder writes for a byte sequence, before they are
  turned into characters, and the padding it appends.
\<close>

fun sextets :: "byte list \<Rightarrow> nat list" where
  "sextets (x # y # z # rest) =
     (let n = unat x * 65536 + unat y * 256 + unat z
      in [n div 262144, n div 4096 mod 64, n div 64 mod 64, n mod 64]) @ sextets rest"
| "sextets [x, y] =
     (let n = (unat x * 256 + unat y) * 4 in [n div 4096, n div 64 mod 64, n mod 64])"
| "sextets [x] = (let n = unat x * 16 in [n div 64, n mod 64])"
| "sextets [] = []"

fun padding :: "byte list \<Rightarrow> jsstring" where
  "padding (x # y # z # rest) = padding rest"
| "padding [x, y] = [pad]"
| "padding [x] = [pad, pad]"
| "padding [] = []"

section \<open>The audio decoder: lines 84 to 96 of \<open>playPCMAudio\<close>\<close>

text \<open>
  \<open>bytes[i] = binaryString.charCodeAt(i)\<close> stores a code unit in a \<open>Uint8Array\<close>,
  which keeps its low eight bits.
\<close>

definition to_Uint8Array :: "jsstring \<Rightarrow> byte list" where
  "to_Uint8Array binaryString = map ucast binaryString"

text \<open>
  \<open>new Int16Array(bytes.buffer)\<close> is a view of the same memory in the byte order of
  the platform, little-endian on every platform a browser runs on: element \<open>i\<close> is made
  of bytes \<open>2i\<close> (low) and \<open>2i+1\<close> (high). The constructor throws a RangeError when
  the byte length of the buffer is not a multiple of two.
\<close>

definition int16_le :: "byte \<Rightarrow> byte \<Rightarrow> 16 word" where
  "int16_le lo hi = push_bit 8 (ucast hi) OR ucast lo"

fun int16_view :: "byte list \<Rightarrow> 16 word list" where
  "int16_view (lo # hi # rest) = int16_le lo hi # int16_view rest"
| "int16_view [b] = []"
| "int16_view [] = []"

definition new_Int16Array :: "byte list \<Rightarrow> js_error + 16 word list" where
  "new_Int16Array bytes =
     (if length bytes mod 2 \<noteq> 0 then Inl RangeError else Inr (int16_view bytes))"

text \<open>
  \<open>float32Data[i] = int16Data[i] / 32768.0\<close>. A signed 16-bit integer divided by
  \<open>2^15\<close> has a 16-bit significand and an exponent no smaller than \<open>-15\<close>, so it is
  a binary32 number and the store into the \<open>Float32Array\<close> does not round: the sample
  is the real number itself.
\<close>

definition to_float32 :: "16 word list \<Rightarrow> real list" where
  "to_float32 int16Data = map (\<lambda>v. real_of_int (sint v) / 32768) int16Data"

definition decodePCM :: "jsstring \<Rightarrow> js_error + real list" where
  "decodePCM base64Data =
     (case atob base64Data of
        Inl e \<Rightarrow> Inl e
      | Inr binaryString \<Rightarrow>
          (case new_Int16Array (to_Uint8Array binaryString) of
             Inl e \<Rightarrow> Inl e
           | Inr int16Data \<Rightarrow> Inr (to_float32 int16Data)))"


text \<open>
  The reference the decoder is compared with, in the words of the specification: sample
  \<open>i\<close> is the little-endian signed 16-bit integer of bytes \<open>2i\<close> and \<open>2i+1\<close>,
  divided by 32768.
\<close>

definition pcm_reference :: "byte list \<Rightarrow> real list" where
  "pcm_reference B =
     map (\<lambda>i. real_of_int
                (let u = int (unat (B ! (2 * i))) + 256 * int (unat (B ! (2 * i + 1)))
                 in if u < 32768 then u else u - 65536) / 32768)
         [0 ..< length B div 2]"

section \<open>The Gemini service\<close>

text \<open>
  An awaited promise settles in one of two ways. The calls of the SDK are outside the
  repository: how \<open>genAI.models.generateContent\<close> settles is an input of the model.
\<close>

datatype 'a settled = Fulfilled 'a | Rejected js_error

record OCRResult =
  ocr_text :: jsstring
  ocr_error :: "jsstring option"

text \<open>
  \<open>String.prototype.trim\<close> removes the WhiteSpace and LineTerminator code points of
  ECMAScript from both ends.
\<close>

definition js_whitespace :: "code_unit \<Rightarrow> bool" where
  "js_whitespace c \<longleftrightarrow>
     c \<in> set [0x0009, 0x000A, 0x000B, 0x000C, 0x000D, 0x0020, 0x00A0, 0x1680,
              0x2000, 0x2001, 0x2002, 0x2003, 0x2004, 0x2005, 0x2006, 0x2007,
              0x2008, 0x2009, 0x200A, 0x2028, 0x2029, 0x202F, 0x205F, 0x3000, 0xFEFF]"

definition trim :: "jsstring \<Rightarrow> jsstring" where
  "trim s = rev (dropWhile js_whitespace (rev (dropWhile js_whitespace s)))"

text \<open>
  \<open>extractText\<close>: the argument is how the call of the model settled, with the value of
  \<open>result.text\<close> (a string or undefined) when it was fulfilled. The whole body is inside
  \<open>try\<close>; the handler logs and returns.
\<close>

definition extractText :: "jsstring option settled \<Rightarrow> OCRResult settled" where
  "extractText response =
     (case response of
        Rejected err \<Rightarrow> Fulfilled \<lparr>ocr_text = [], ocr_error = Some (js ''API_ERROR'')\<rparr>
      | Fulfilled result_text \<Rightarrow>
          (let t = (case result_text of
                      None \<Rightarrow> []
                    | Some s \<Rightarrow> trim s)
           in if t = js ''NO_TEXT_FOUND'' \<or> t = []
              then Fulfilled \<lparr>ocr_text = [], ocr_error = Some (js ''NO_TEXT_FOUND'')\<rparr>
              else Fulfilled \<lparr>ocr_text = t, ocr_error = None\<rparr>))"

text \<open>
  \<open>generateSpeech\<close>: the inline data of the first part of the first candidate, or
  null; null as well when the call is rejected.
\<close>

definition generateSpeech :: "jsstring option settled \<Rightarrow> jsstring option settled" where
  "generateSpeech response =
     (case response of
        Rejected err \<Rightarrow> Fulfilled None
      | Fulfilled d \<Rightarrow> Fulfilled (if truthy d then d else None))"

section \<open>The component \<open>App\<close>\<close>

datatype lang_key = Ca | Es | En | Fr

record Language =
  code :: jsstring
  name :: jsstring
  voice :: jsstring
  prompt :: jsstring
  errorMsg :: jsstring
  processingMsg :: jsstring

fun SUPPORTED_LANGUAGES :: "lang_key \<Rightarrow> Language" where
  "SUPPORTED_LANGUAGES Ca =
     \<lparr>code = js ''ca-ES'', name = js ''Catal'' @ [0xE0], voice = js ''Kore'',
      prompt = js ''catal'' @ [0xE0],
      errorMsg = js ''No s'ha detectat cap text a la imatge. Torna-ho a provar.'',
      processingMsg = js ''Processant...''\<rparr>"
| "SUPPORTED_LANGUAGES Es =
     \<lparr>code = js ''es-ES'', name = js ''Espa'' @ [0xF1] @ js ''ol'', voice = js ''Kore'',
      prompt = js ''espa'' @ [0xF1] @ js ''ol'',
      errorMsg = js ''No se ha detectado texto en la imagen. Int'' @ [0xE9]
                 @ js ''ntalo de nuevo.'',
      processingMsg = js ''Procesando...''\<rparr>"
| "SUPPORTED_LANGUAGES En =
     \<lparr>code = js ''en-US'', name = js ''English'', voice = js ''Puck'',
      prompt = js ''english'',
      errorMsg = js ''No text detected in the image. Please try again.'',
      processingMsg = js ''Processing...''\<rparr>"
| "SUPPORTED_LANGUAGES Fr =
     \<lparr>code = js ''fr-FR'', name = js ''Fran'' @ [0xE7] @ js ''ais'', voice = js ''Fenrir'',
      prompt = js ''fran'' @ [0xE7] @ js ''ais'',
      errorMsg = js ''Aucun texte d'' @ [0xE9] @ js ''tect'' @ [0xE9]
                 @ js '' dans l'image. Veuillez r'' @ [0xE9] @ js ''essayer.'',
      processingMsg = js ''Traitement...''\<rparr>"

text \<open>
  The values of the state variables in one render. Every function of the component is a
  closure of the render that created it: it reads the state variables of that render,
  whatever has been set since.
\<close>

record render =
  selectedLang :: lang_key
  isProcessing :: bool
  error :: "jsstring option"
  lastText :: "jsstring option"
  audioData :: "jsstring option"

record image_file =
  file_type :: jsstring
  read_result :: "jsstring option"
    \<comment> \<open>\<open>reader.result\<close> at \<open>loadend\<close>: the data URL, or null when the read failed\<close>

text \<open>What the component does to the outside, in order.\<close>

datatype event =
    Console_error js_error
  | Speech_cancel
  | Speech_speak jsstring jsstring
      \<comment> \<open>the utterance's text and \<open>lang\<close>; its rate is always 0.9\<close>
  | ReadAsDataURL image_file
  | ExtractText "jsstring option" jsstring jsstring
      \<comment> \<open>\<open>GeminiService.extractText(base64Data, file.type, langConfig.prompt)\<close>\<close>
  | GenerateSpeech jsstring jsstring
      \<comment> \<open>\<open>GeminiService.generateSpeech(text, langConfig.voice)\<close>\<close>
  | New_AudioContext
  | Atob jsstring
  | Start_playback "real list"
      \<comment> \<open>\<open>source.start()\<close> on a one-channel buffer of these samples at 24000 Hz\<close>
  | Uncaught_error js_error
      \<comment> \<open>an exception that leaves an event callback: reported to the window, handled by nobody\<close>

text \<open>
  The state that lives across renders: the state variables as last set, whether
  \<open>audioContextRef.current\<close> holds a context, and the events so far.
\<close>

record world =
  state :: render
  audioContext :: bool
  events :: "event list"

definition emit :: "event list \<Rightarrow> world \<Rightarrow> world" where
  "emit es w = w\<lparr>events := events w @ es\<rparr>"

definition setIsProcessing :: "bool \<Rightarrow> world \<Rightarrow> world" where
  "setIsProcessing b w = w\<lparr>state := (state w)\<lparr>isProcessing := b\<rparr>\<rparr>"

definition setError :: "jsstring option \<Rightarrow> world \<Rightarrow> world" where
  "setError e w = w\<lparr>state := (state w)\<lparr>error := e\<rparr>\<rparr>"

definition setLastText :: "jsstring option \<Rightarrow> world \<Rightarrow> world" where
  "setLastText t w = w\<lparr>state := (state w)\<lparr>lastText := t\<rparr>\<rparr>"

definition setAudioData :: "jsstring option \<Rightarrow> world \<Rightarrow> world" where
  "setAudioData d w = w\<lparr>state := (state w)\<lparr>audioData := d\<rparr>\<rparr>"

definition setSelectedLang :: "lang_key \<Rightarrow> world \<Rightarrow> world" where
  "setSelectedLang k w = w\<lparr>state := (state w)\<lparr>selectedLang := k\<rparr>\<rparr>"

definition langConfig :: "render \<Rightarrow> Language" where
  "langConfig r = SUPPORTED_LANGUAGES (selectedLang r)"

definition speakStatus :: "render \<Rightarrow> jsstring \<Rightarrow> world \<Rightarrow> world" where
  "speakStatus r t w = emit [Speech_cancel, Speech_speak t (code (langConfig r))] w"

subsection \<open>\<open>playPCMAudio\<close>\<close>

text \<open>
  What the platform does with the audio calls is an input: whether a context can be
  created, what is thrown when it cannot (a TypeError when the window has neither
  \<open>AudioContext\<close> nor \<open>webkitAudioContext\<close>, since \<open>new\<close> is then applied to
  undefined; the constructor's own exception otherwise), and whether the buffer can be
  created, connected and started. \<open>createBuffer\<close> throws on a length of zero frames in
  any case.
\<close>

record audio_env =
  context_ok :: bool
  context_error :: js_error
  start_ok :: bool

definition ensure_context :: "audio_env \<Rightarrow> world \<Rightarrow> js_error + world" where
  "ensure_context a w =
     (if audioContext w then Inr w
      else if context_ok a then Inr (emit [New_AudioContext] (w\<lparr>audioContext := True\<rparr>))
      else Inl (context_error a))"

definition start_playback :: "audio_env \<Rightarrow> real list \<Rightarrow> world \<Rightarrow> js_error + world" where
  "start_playback a float32Data w =
     (if float32Data = [] \<or> \<not> start_ok a then Inl NotSupportedError
      else Inr (emit [Start_playback float32Data] w))"

text \<open>The handler of \<open>playPCMAudio\<close>, lines 105 to 108; \<open>lastText\<close> is the closure's.\<close>

definition playPCMAudio_catch :: "render \<Rightarrow> js_error \<Rightarrow> world \<Rightarrow> world" where
  "playPCMAudio_catch r err w =
     (let w' = emit [Console_error err] w
      in if truthy (lastText r) then speakStatus r (the (lastText r)) w' else w')"

definition playPCMAudio :: "render \<Rightarrow> audio_env \<Rightarrow> jsstring \<Rightarrow> world \<Rightarrow> world" where
  "playPCMAudio r a base64Data w =
     (case ensure_context a w of
        Inl err \<Rightarrow> playPCMAudio_catch r err w
      | Inr w1 \<Rightarrow>
          (let w2 = emit [Atob base64Data] w1
           in case decodePCM base64Data of
                Inl err \<Rightarrow> playPCMAudio_catch r err w2
              | Inr float32Data \<Rightarrow>
                  (case start_playback a float32Data w2 of
                     Inl err \<Rightarrow> playPCMAudio_catch r err w2
                   | Inr w3 \<Rightarrow> w3)))"

subsection \<open>\<open>processImage\<close>\<close>

text \<open>\<open>s.split(sep)\<close> and the element \<open>[1]\<close> of an array, undefined when it is absent.\<close>

fun split_on :: "code_unit \<Rightarrow> jsstring \<Rightarrow> jsstring list" where
  "split_on sep [] = [[]]"
| "split_on sep (c # cs) =
     (if c = sep then [] # split_on sep cs
      else (case split_on sep cs of
              [] \<Rightarrow> [[c]]
            | p # ps \<Rightarrow> (c # p) # ps))"

definition second :: "'a list \<Rightarrow> 'a option" where
  "second xs = (case xs of a # b # rest \<Rightarrow> Some b | _ \<Rightarrow> None)"

text \<open>
  \<open>processImage\<close> is an async function: it runs until an \<open>await\<close>, and goes on when
  the awaited promise settles. Where a call of it stands:
\<close>

datatype stage =
    Reading image_file      \<comment> \<open>awaiting the promise around the FileReader\<close>
  | Recognizing             \<comment> \<open>awaiting \<open>GeminiService.extractText\<close>\<close>
  | Synthesizing jsstring   \<comment> \<open>awaiting \<open>GeminiService.generateSpeech\<close> for this text\<close>
  | Stalled                 \<comment> \<open>awaiting a promise that nothing will ever settle\<close>
  | Done

text \<open>The handler, lines 150 to 154, and the \<open>finally\<close> block.\<close>

definition generic_msg :: "lang_key \<Rightarrow> jsstring" where
  "generic_msg k =
     (if k = Ca then js ''S'ha produ'' @ [0xEF] @ js ''t un error.''
      else js ''An error occurred.'')"

definition processImage_catch :: "render \<Rightarrow> js_error \<Rightarrow> world \<Rightarrow> world" where
  "processImage_catch r err w =
     (let msg = generic_msg (selectedLang r)
      in speakStatus r msg (setError (Some msg) (emit [Console_error err] w)))"

definition processImage_finally :: "world \<Rightarrow> world" where
  "processImage_finally w = setIsProcessing False w"

text \<open>Lines 112 to 126: the state is reset and the read of the file is started.\<close>

definition processImage_begin :: "image_file \<Rightarrow> world \<Rightarrow> world \<times> stage" where
  "processImage_begin f w =
     (emit [ReadAsDataURL f]
        (setAudioData None (setLastText None (setError None (setIsProcessing True w)))),
      Reading f)"

text \<open>
  Lines 121 to 129, at \<open>loadend\<close>. The promise has no reject path and \<open>onloadend\<close>
  runs after a failed read too, with \<open>reader.result\<close> null: \<open>split\<close> of null throws
  inside the callback, outside \<open>processImage\<close>, and \<open>resolve\<close> is never called.
\<close>

definition after_read :: "render \<Rightarrow> image_file \<Rightarrow> world \<Rightarrow> world \<times> stage" where
  "after_read r f w =
     (case read_result f of
        None \<Rightarrow> (emit [Uncaught_error TypeError] w, Stalled)
      | Some url \<Rightarrow>
          (emit [ExtractText (second (split_on 0x2C url)) (file_type f)
                   (prompt (langConfig r))] w,
           Recognizing))"

text \<open>Lines 129 to 141, when \<open>extractText\<close> has settled.\<close>

definition after_extractText :: "render \<Rightarrow> OCRResult settled \<Rightarrow> world \<Rightarrow> world \<times> stage" where
  "after_extractText r settled w =
     (case settled of
        Rejected err \<Rightarrow> (processImage_finally (processImage_catch r err w), Done)
      | Fulfilled ocrResult \<Rightarrow>
          if truthy (ocr_error ocrResult) \<or> ocr_text ocrResult = []
          then (processImage_finally
                  (setIsProcessing False
                     (speakStatus r (errorMsg (langConfig r))
                        (setError (Some (errorMsg (langConfig r))) w))),
                Done)
          else (emit [GenerateSpeech (ocr_text ocrResult) (voice (langConfig r))]
                  (setLastText (Some (ocr_text ocrResult)) w),
                Synthesizing (ocr_text ocrResult)))"

text \<open>
  Lines 141 to 157, when \<open>generateSpeech\<close> has settled. \<open>playPCMAudio\<close> has no
  \<open>await\<close> inside: it runs to its end at once.
\<close>

definition after_generateSpeech ::
  "render \<Rightarrow> jsstring \<Rightarrow> jsstring option settled \<Rightarrow> audio_env \<Rightarrow> world \<Rightarrow> world \<times> stage"
where
  "after_generateSpeech r t settled a w =
     (case settled of
        Rejected err \<Rightarrow> (processImage_finally (processImage_catch r err w), Done)
      | Fulfilled base64Audio \<Rightarrow>
          if truthy base64Audio
          then (processImage_finally
                  (playPCMAudio r a (the base64Audio) (setAudioData base64Audio w)),
                Done)
          else (processImage_finally (speakStatus r t w), Done))"

text \<open>
  One whole call, given how each awaited promise settles. The result is the world when
  the call has come to rest, and where it rests: \<open>Done\<close>, or \<open>Stalled\<close> for ever.
\<close>

record capture_env =
  ocr :: "OCRResult settled"
  tts :: "jsstring option settled"
  audio :: audio_env

definition processImage :: "render \<Rightarrow> image_file \<Rightarrow> capture_env \<Rightarrow> world \<Rightarrow> world \<times> stage" where
  "processImage r f env w =
     (case after_read r f (fst (processImage_begin f w)) of
        (w1, Recognizing) \<Rightarrow>
          (case after_extractText r (ocr env) w1 of
             (w2, Synthesizing t) \<Rightarrow> after_generateSpeech r t (tts env) (audio env) w2
           | rest \<Rightarrow> rest)
      | rest \<Rightarrow> rest)"

subsection \<open>\<open>replayAudio\<close> and the buttons\<close>

definition replayAudio :: "render \<Rightarrow> audio_env \<Rightarrow> world \<Rightarrow> world" where
  "replayAudio r a w =
     (if truthy (audioData r) then playPCMAudio r a (the (audioData r)) w
      else if truthy (lastText r) then speakStatus r (the (lastText r)) w
      else w)"

text \<open>The \<open>disabled\<close> attribute of the two capture buttons, and of the replay button.\<close>

definition capture_disabled :: "render \<Rightarrow> bool" where
  "capture_disabled r = isProcessing r"

definition replay_disabled :: "render \<Rightarrow> bool" where
  "replay_disabled r = (isProcessing r \<or> (\<not> truthy (audioData r) \<and> \<not> truthy (lastText r)))"

definition initial :: world where
  "initial =
     \<lparr>state = \<lparr>selectedLang = Ca, isProcessing = False, error = None, lastText = None,
               audioData = None\<rparr>,
      audioContext = False, events = []\<rparr>"

subsection \<open>Calls in flight\<close>

text \<open>
  The running application: the world, and the calls of \<open>processImage\<close> that have not
  ended, each with the render whose closure it is. \<open>handleFileChange\<close> is the closure
  of the render on screen; it starts \<open>processImage\<close> whenever the event carries a file.
\<close>

type_synonym system = "world \<times> (render \<times> stage) list"

definition in_flight :: "system \<Rightarrow> nat" where
  "in_flight s = length (snd s)"

definition handleFileChange :: "image_file option \<Rightarrow> system \<Rightarrow> system" where
  "handleFileChange files s =
     (case files of
        None \<Rightarrow> s
      | Some f \<Rightarrow>
          (case processImage_begin f (fst s) of
             (w, st) \<Rightarrow> (w, snd s @ [(state (fst s), st)])))"

definition settle ::
  "nat \<Rightarrow> render \<Rightarrow> world \<times> stage \<Rightarrow> (render \<times> stage) list \<Rightarrow> system" where
  "settle i r res ts =
     (fst res, if snd res = Done then take i ts @ drop (Suc i) ts else ts[i := (r, snd res)])"

text \<open>
  What can happen next. A capture button answers only while it is not disabled, and the
  file chosen then reaches \<open>handleFileChange\<close>; the replay button likewise; the language
  selector is never disabled. An awaited promise may settle in any way at any time.
\<close>

inductive step :: "system \<Rightarrow> system \<Rightarrow> bool" where
  capture:
    "\<not> capture_disabled (state w) \<Longrightarrow> step (w, ts) (handleFileChange files (w, ts))"
| read_ended:
    "i < length ts \<Longrightarrow> ts ! i = (r, Reading f) \<Longrightarrow>
     step (w, ts) (settle i r (after_read r f w) ts)"
| extractText_settled:
    "i < length ts \<Longrightarrow> ts ! i = (r, Recognizing) \<Longrightarrow>
     step (w, ts) (settle i r (after_extractText r res w) ts)"
| generateSpeech_settled:
    "i < length ts \<Longrightarrow> ts ! i = (r, Synthesizing t) \<Longrightarrow>
     step (w, ts) (settle i r (after_generateSpeech r t res a w) ts)"
| replay:
    "\<not> replay_disabled (state w) \<Longrightarrow> step (w, ts) (replayAudio (state w) a w, ts)"
| select_language:
    "step (w, ts) (setSelectedLang k w, ts)"

inductive reachable :: "system \<Rightarrow> bool" where
  at_start: "reachable (initial, [])"
| after_step: "reachable s \<Longrightarrow> step s s' \<Longrightarrow> reachable s'"

subsection \<open>Reading the events\<close>

text \<open>
  The events a call added, and the three kinds the properties below speak of: a call of the synthesis
  client, the work of \<open>playPCMAudio\<close> on a payload (context, decoding, playback), and
  an utterance of the speech announcer.
\<close>

definition new_events :: "world \<Rightarrow> world \<Rightarrow> event list" where
  "new_events w w' = drop (length (events w)) (events w')"

fun synthesis_call :: "event \<Rightarrow> bool" where
  "synthesis_call (GenerateSpeech t v) = True"
| "synthesis_call _ = False"

fun playback_call :: "event \<Rightarrow> bool" where
  "playback_call New_AudioContext = True"
| "playback_call (Atob d) = True"
| "playback_call (Start_playback samples) = True"
| "playback_call _ = False"

fun announcement :: "event \<Rightarrow> bool" where
  "announcement (Speech_speak t l) = True"
| "announcement _ = False"

text \<open>The invariant behind the buttons: one call in flight at most, and the flag up.\<close>

definition single_flight :: "system \<Rightarrow> bool" where
  "single_flight s \<longleftrightarrow>
     length (snd s) \<le> 1 \<and> (snd s \<noteq> [] \<longrightarrow> isProcessing (state (fst s)))"

subsection \<open>Sample inputs\<close>

definition a_png :: image_file where
  "a_png =
     \<lparr>file_type = js ''image/png'',
      read_result = Some (js ''data:image/png;base64,iVBORw=='')\<rparr>"

text \<open>The same file when its read fails: \<open>reader.result\<close> is null at \<open>loadend\<close>.\<close>

definition unreadable_png :: image_file where
  "unreadable_png = a_png\<lparr>read_result := None\<rparr>"

definition audio_fine :: audio_env where
  "audio_fine = \<lparr>context_ok = True, context_error = TypeError, start_ok = True\<rparr>"

definition no_text :: OCRResult where
  "no_text = \<lparr>ocr_text = [], ocr_error = Some (js ''NO_TEXT_FOUND'')\<rparr>"

definition hello :: OCRResult where
  "hello = \<lparr>ocr_text = js ''Hello'', ocr_error = None\<rparr>"

definition bonjour :: OCRResult where
  "bonjour = \<lparr>ocr_text = js ''Bonjour'', ocr_error = None\<rparr>"

definition french :: world where
  "french = setSelectedLang Fr initial"

definition old :: OCRResult where
  "old = \<lparr>ocr_text = js ''Old'', ocr_error = None\<rparr>"

text \<open>The world after a first capture that recognized \<open>Old\<close> and played its audio.\<close>

definition after_a_capture :: world where
  "after_a_capture =
     fst (processImage (state initial) a_png
            \<lparr>ocr = Fulfilled old, tts = Fulfilled (Some (js ''AAAAgA=='')),
             audio = audio_fine\<rparr> initial)"

text \<open>One capture from the start, its file read: the call is awaiting the recognition.\<close>

definition first_capture :: system where
  "first_capture =
     (case handleFileChange (Some a_png) (initial, []) of
        (w, ts) \<Rightarrow> settle 0 (state initial) (after_read (state initial) a_png w) ts)"

section \<open>The decoder is correct\<close>

lemma int16_le_of_nat: "int16_le lo hi = of_nat (unat lo + 256 * unat hi)"
proof -
  have "int16_le lo hi = word_cat hi lo"
    by (simp add: int16_le_def word_cat_eq_push_bit_or)
  also have "\<dots> = push_bit 8 (ucast hi) + ucast lo"
    by (simp add: word_cat_eq)
  also have "\<dots> = of_nat (unat lo + 256 * unat hi)"
    by (simp add: push_bit_eq_mult)
  finally show ?thesis .
qed

lemma unat_int16_le: "unat (int16_le lo hi) = unat lo + 256 * unat hi"
proof -
  have "unat lo < 256" "unat hi < 256"
    using unsigned_less[of lo, where 'a=nat] unsigned_less[of hi, where 'a=nat] by simp_all
  then have "unat lo + 256 * unat hi < 65536" by arith
  then show ?thesis
    by (subst int16_le_of_nat, subst unat_of_nat) simp
qed

lemma sint_16: "sint (w :: 16 word) = (if uint w < 32768 then uint w else uint w - 65536)"
proof -
  have b: "0 \<le> uint w" "uint w < 65536" using uint_lt2p[of w] by simp_all
  have "sint w = take_bit 16 (uint w + 32768) - 32768"
    by (simp add: sint_uint signed_take_bit_eq_take_bit_shift)
  also have "\<dots> = (uint w + 32768) mod 65536 - 32768"
    by (simp add: take_bit_eq_mod)
  also have "\<dots> = (if uint w < 32768 then uint w else uint w - 65536)"
    proof (cases "uint w < 32768")
    case True with b show ?thesis by simp
  next
    case False
    with b have "(uint w + 32768) mod 65536 = uint w - 32768"
      using mod_add_self2[of "uint w - 32768" 65536] by (simp add: mod_pos_pos_trivial add.commute)
    with False show ?thesis by (simp add: add.commute)
  qed
  finally show ?thesis .
qed

lemma sint_int16_le: "sint (int16_le lo hi) = (let u = int (unat lo) + 256 * int (unat hi) in if u < 32768 then u else u - 65536)"
proof -
  have "uint (int16_le lo hi) = int (unat (int16_le lo hi))" by simp
  then show ?thesis by (simp add: sint_16 unat_int16_le Let_def)
qed

lemma index_of_nth: "distinct xs \<Longrightarrow> n < length xs \<Longrightarrow> index_of (xs ! n) xs = Some n"
proof (induction xs arbitrary: n)
  case Nil then show ?case by simp
next
  case (Cons y ys)
  show ?case
  proof (cases n)
    case 0 then show ?thesis by simp
  next
    case (Suc m)
    with Cons.prems have "ys ! m \<noteq> y" "m < length ys" "distinct ys" by auto
    with Cons.IH[of m] Suc show ?thesis by simp
  qed
qed

lemma alphabet_distinct: "distinct base64_alphabet"
  by (simp add: base64_alphabet_def js_def)

lemma alphabet_length: "length base64_alphabet = 64"
  by (simp add: base64_alphabet_def js_def)

lemma alphabet_clean: "\<forall>c \<in> set base64_alphabet. \<not> ascii_whitespace c \<and> c \<noteq> pad"
  by (simp add: base64_alphabet_def js_def ascii_whitespace_def pad_def)

lemma base64_value_char: "n < 64 \<Longrightarrow> base64_value (base64_char n) = Some n"
  by (simp add: base64_value_def base64_char_def index_of_nth alphabet_distinct alphabet_length)

lemma base64_char_clean: "n < 64 \<Longrightarrow> \<not> ascii_whitespace (base64_char n) \<and> base64_char n \<noteq> pad"
  using alphabet_clean by (simp add: base64_char_def alphabet_length)

lemma pad_not_ws: "\<not> ascii_whitespace pad"
  by (simp add: ascii_whitespace_def pad_def)

lemma encode_split: "encode_base64 bs = map base64_char (sextets bs) @ padding bs"
  by (induction bs rule: sextets.induct) (simp_all add: Let_def)

lemma byte_lt: "unat (x :: byte) < 256"
  using unsigned_less[of x, where 'a=nat] by simp

lemma sextets_lt: "v \<in> set (sextets bs) \<Longrightarrow> v < 64"
proof (induction bs rule: sextets.induct)
  case (1 x y z rest)
  have "unat x * 65536 + unat y * 256 + unat z < 16777216"
    using byte_lt[of x] byte_lt[of y] byte_lt[of z] by arith
  then have "(unat x * 65536 + unat y * 256 + unat z) div 262144 < 64" by arith
  with 1 show ?case by (auto simp: Let_def)
next
  case (2 x y)
  have "(unat x * 256 + unat y) * 4 < 262144"
    using byte_lt[of x] byte_lt[of y] by arith
  then have "(unat x * 256 + unat y) * 4 div 4096 < 64" by arith
  with 2 show ?case by (auto simp: Let_def)
next
  case (3 x)
  have "unat x * 16 div 64 < 64" using byte_lt[of x] by arith
  with 3 show ?case by (auto simp: Let_def)
next
  case 4 then show ?case by simp
qed

lemma those_values_map: "(\<And>v. v \<in> set vs \<Longrightarrow> v < 64) \<Longrightarrow> those_values (map base64_char vs) = Some vs"
  by (induction vs) (simp_all add: base64_value_char)

lemma recombine4: "((n div 262144 * 64 + n div 4096 mod 64) * 64 + n div 64 mod 64) * 64 + n mod 64 = (n::nat)"
proof -
  have a: "n div 262144 = n div 4096 div 64" by (simp add: div_mult2_eq[symmetric])
  have b: "n div 4096 = n div 64 div 64" by (simp add: div_mult2_eq[symmetric])
  have "n div 4096 div 64 * 64 + n div 4096 mod 64 = n div 4096" by (rule div_mult_mod_eq)
  moreover have "n div 64 div 64 * 64 + n div 64 mod 64 = n div 64" by (rule div_mult_mod_eq)
  moreover have "n div 64 * 64 + n mod 64 = n" by (rule div_mult_mod_eq)
  ultimately show ?thesis unfolding a using b by simp
qed

lemma group_byte1: "y < 256 \<Longrightarrow> z < 256 \<Longrightarrow> (x * 65536 + y * 256 + z) div 65536 = (x::nat)"
  by simp
lemma group_byte2: "y < 256 \<Longrightarrow> z < 256 \<Longrightarrow> (x * 65536 + y * 256 + z) div 256 mod 256 = (y::nat)"
proof -
  assume b: "y < 256" "z < 256"
  have "(x * 65536 + y * 256 + z) div 256 = x * 256 + y" using b by simp
  then show ?thesis using b by simp
qed
lemma group_byte3: "z < 256 \<Longrightarrow> (x * 65536 + y * 256 + z) mod 256 = (z::nat)"
proof -
  assume b: "z < 256"
  have "x * 65536 + y * 256 + z = (x * 256 + y) * 256 + z" by simp
  then show ?thesis using b by (simp only: mod_mult_self3 mod_less)
qed

lemma recombine3: "(n div 4096 * 64 + n div 64 mod 64) * 64 + n mod 64 = (n::nat)"
proof -
  have b: "n div 4096 = n div 64 div 64" by (simp add: div_mult2_eq[symmetric])
  have "n div 64 div 64 * 64 + n div 64 mod 64 = n div 64" by (rule div_mult_mod_eq)
  moreover have "n div 64 * 64 + n mod 64 = n" by (rule div_mult_mod_eq)
  ultimately show ?thesis using b by simp
qed

lemma decode_sextets_sextets: "decode_sextets (sextets bs) = bs"
proof (induction bs rule: sextets.induct)
  case (1 x y z rest)
  define n where "n = unat x * 65536 + unat y * 256 + unat z"
  have "n div 65536 = unat x" "n div 256 mod 256 = unat y" "n mod 256 = unat z"
    unfolding n_def by (simp_all only: group_byte1 group_byte2 group_byte3 byte_lt)
  moreover have "decode_sextets (sextets (x # y # z # rest)) =
      [of_nat (n div 65536), of_nat (n div 256 mod 256), of_nat (n mod 256)] @ decode_sextets (sextets rest)"
    by (simp only: sextets.simps decode_sextets.simps Let_def n_def[symmetric] recombine4 append_Cons append_Nil)
  ultimately show ?case using 1 by simp
next
  case (2 x y)
  define n where "n = (unat x * 256 + unat y) * 4"
  have "n div 4 div 256 = unat x" "n div 4 mod 256 = unat y"
    unfolding n_def using byte_lt[of y] by simp_all
  moreover have "decode_sextets (sextets [x, y]) = [of_nat (n div 4 div 256), of_nat (n div 4 mod 256)]"
    by (simp only: sextets.simps decode_sextets.simps Let_def n_def[symmetric] recombine3)
  ultimately show ?case by simp
next
  case (3 x)
  define n where "n = unat x * 16"
  have "n div 64 * 64 + n mod 64 = n" by (rule div_mult_mod_eq)
  moreover have "n div 16 = unat x" unfolding n_def by simp
  moreover have "decode_sextets (sextets [x]) = [of_nat ((n div 64 * 64 + n mod 64) div 16)]"
    by (simp only: sextets.simps decode_sextets.simps Let_def n_def[symmetric])
  ultimately show ?case by simp
next
  case 4 then show ?case by simp
qed

lemma padding_cases: "padding bs = [] \<or> (padding bs = [pad] \<and> sextets bs \<noteq> []) \<or> (padding bs = [pad, pad] \<and> sextets bs \<noteq> [])"
  by (induction bs rule: sextets.induct) (auto simp: Let_def)

lemma length_encode: "(length (sextets bs) + length (padding bs)) mod 4 = 0"
  by (induction bs rule: sextets.induct) (simp_all add: Let_def)

lemma length_sextets: "length (sextets bs) mod 4 \<noteq> 1"
  by (induction bs rule: sextets.induct) (simp_all add: Let_def)

lemma last_sextets: "sextets bs \<noteq> [] \<Longrightarrow> last (map base64_char (sextets bs)) \<noteq> pad"
proof -
  assume ne: "sextets bs \<noteq> []"
  then have "last (sextets bs) \<in> set (sextets bs)" by simp
  then have "last (sextets bs) < 64" by (rule sextets_lt)
  with ne show ?thesis by (simp add: last_map base64_char_clean)
qed

lemma strip_padding_encode:
  "strip_padding (encode_base64 bs) = map base64_char (sextets bs)"
proof -
  let ?xs = "map base64_char (sextets bs)"
  have len: "(length ?xs + length (padding bs)) mod 4 = 0"
    using length_encode[of bs] by simp
  consider (none) "padding bs = []" | (one) "padding bs = [pad]" "sextets bs \<noteq> []"
    | (two) "padding bs = [pad, pad]" "sextets bs \<noteq> []"
    using padding_cases[of bs] by blast
  then show ?thesis
  proof cases
    case none
    then show ?thesis
      using last_sextets[of bs] by (auto simp: encode_split strip_padding_def)
  next
    case one
    then show ?thesis
      using last_sextets[of bs] len by (simp add: encode_split strip_padding_def butlast_append)
  next
    case two
    then show ?thesis
      using len by (simp add: encode_split strip_padding_def butlast_append)
  qed
qed

lemma filter_encode: "filter (\<lambda>c. \<not> ascii_whitespace c) (encode_base64 bs) = encode_base64 bs"
proof -
  have "\<not> ascii_whitespace c" if "c \<in> set (encode_base64 bs)" for c
  proof -
    from that have "c \<in> base64_char ` set (sextets bs) \<or> c \<in> set (padding bs)"
      by (auto simp: encode_split)
    moreover have "c \<in> set (padding bs) \<Longrightarrow> c = pad"
      using padding_cases[of bs] by auto
    ultimately show ?thesis
      using pad_not_ws base64_char_clean sextets_lt by auto
  qed
  then show ?thesis by (simp add: filter_id_conv)
qed

lemma forgiving_base64_decode_encode: "forgiving_base64_decode (encode_base64 bs) = Inr bs"
  using length_sextets[of bs]
  by (simp add: forgiving_base64_decode_def filter_encode strip_padding_encode
      those_values_map sextets_lt decode_sextets_sextets)

lemma ucast_byte_roundtrip: "map ucast (map ucast bs :: jsstring) = (bs :: byte list)"
proof -
  have "ucast (ucast b :: code_unit) = b" for b :: byte
    by (rule ucast_up_ucast_id) (simp add: is_up)
  then show ?thesis by (induction bs) simp_all
qed


lemma bytes_of_atob_encode: "map_sum id to_Uint8Array (atob (encode_base64 bs)) = Inr bs"
  by (simp add: atob_def forgiving_base64_decode_encode to_Uint8Array_def ucast_byte_roundtrip del: map_map)

lemma atob_encode: "atob (encode_base64 bs) = Inr (map ucast bs)"
  by (simp add: atob_def forgiving_base64_decode_encode)

lemma to_Uint8Array_binary: "to_Uint8Array (map ucast bs) = bs"
  by (simp only: to_Uint8Array_def ucast_byte_roundtrip)

lemma int16_view_nth:
  "even (length B) \<Longrightarrow>
   int16_view B = map (\<lambda>i. int16_le (B ! (2 * i)) (B ! (2 * i + 1))) [0 ..< length B div 2]"
proof (induction B rule: int16_view.induct)
  case (1 lo hi rest)
  then have "int16_view rest = map (\<lambda>i. int16_le (rest ! (2 * i)) (rest ! (2 * i + 1))) [0 ..< length rest div 2]"
    by simp
  moreover have "[0 ..< length (lo # hi # rest) div 2] = 0 # map Suc [0 ..< length rest div 2]"
    by (simp add: upt_conv_Cons map_Suc_upt del: upt_Suc)
  ultimately show ?case
    by (simp add: o_def del: upt_Suc map_Suc_upt)
next
  case (2 b) then show ?case by simp
next
  case 3 then show ?case by simp
qed

lemma decodePCM_encode:
  "even (length B) \<Longrightarrow> decodePCM (encode_base64 B) = Inr (to_float32 (int16_view B))"
  by (simp add: decodePCM_def atob_encode to_Uint8Array_binary new_Int16Array_def
      del: map_map)

lemma to_float32_reference:
  "even (length B) \<Longrightarrow> to_float32 (int16_view B) = pcm_reference B"
  by (simp only: int16_view_nth to_float32_def pcm_reference_def sint_int16_le map_map o_def)

lemma to_float32_range:
  "x \<in> set (to_float32 vs) \<Longrightarrow>
   \<exists>k::int. - 32768 \<le> k \<and> k < 32768 \<and> x = real_of_int k / 2 ^ 15"
proof -
  assume "x \<in> set (to_float32 vs)"
  then obtain v :: "16 word" where v: "x = real_of_int (sint v) / 32768"
    unfolding to_float32_def set_map by blast
  have "- 32768 \<le> sint v" "sint v < 32768"
    using sint_ge[of v] sint_lt[of v] by simp_all
  with v show ?thesis by (intro exI[of _ "sint v"]) simp
qed

lemma encode_scenario: "encode_base64 [0x00, 0x00, 0x00, 0x80] = js ''AAAAgA==''"
  by (simp add: base64_char_def base64_alphabet_def js_def pad_def)

text \<open>
  C1. For every byte sequence \<open>B\<close> of even length, decoding the base64 encoding of
  \<open>B\<close> succeeds and gives, sample by sample, the little-endian signed 16-bit integers
  of \<open>B\<close> divided by 32768; the samples are exact, no rounding takes place. The four
  bytes 00 00 00 80, whose encoding is \<open>AAAAgA==\<close>, decode to the samples 0 and -1.
\<close>

theorem C1_decode_of_encode:
  "(even (length B) \<longrightarrow> decodePCM (encode_base64 B) = Inr (pcm_reference B)) \<and>
   decodePCM (encode_base64 [0x00, 0x00, 0x00, 0x80]) = Inr [0, - 1]"
proof
  show "even (length B) \<longrightarrow> decodePCM (encode_base64 B) = Inr (pcm_reference B)"
    by (simp add: decodePCM_encode to_float32_reference)
  show "decodePCM (encode_base64 [0x00, 0x00, 0x00, 0x80]) = Inr [0, - 1]"
    by (subst decodePCM_encode) (simp_all add: to_float32_def int16_le_def)
qed

theorem C1_decode_of_encode_witness:
  "even (length [0x34, 0x12, 0xFF, 0xFF :: byte]) \<and>
   decodePCM (encode_base64 [0x34, 0x12, 0xFF, 0xFF]) = Inr [4660 / 32768, - 1 / 32768]"
  using C1_decode_of_encode [of "[0x34, 0x12, 0xFF, 0xFF]"]
  by (simp add: pcm_reference_def upt_conv_Cons)

section \<open>The orchestration\<close>

lemmas world_defs = emit_def setIsProcessing_def setError_def setLastText_def
  setAudioData_def setSelectedLang_def speakStatus_def

lemmas capture_defs = processImage_def processImage_begin_def after_read_def
  after_extractText_def after_generateSpeech_def processImage_finally_def
  processImage_catch_def

lemmas play_defs = playPCMAudio_def playPCMAudio_catch_def ensure_context_def
  start_playback_def

text \<open>Facts about the sample inputs.\<close>

lemma js_nonempty: "js ''NO_TEXT_FOUND'' \<noteq> []" "js ''Hello'' \<noteq> []" "js ''AA=='' \<noteq> []"
  by (simp_all add: js_def)

lemma a_png_read: "read_result a_png = Some (js ''data:image/png;base64,iVBORw=='')"
  by (simp add: a_png_def)

lemma url_payload:
  "second (split_on 0x2C (js ''data:image/png;base64,iVBORw=='')) = Some (js ''iVBORw=='')"
  by (simp add: js_def second_def)

lemma hello_fields: "\<not> truthy (ocr_error hello)" "ocr_text hello = js ''Hello''"
  by (simp_all add: hello_def)

lemma bonjour_fields: "\<not> truthy (ocr_error bonjour)" "ocr_text bonjour = js ''Bonjour''"
  "js ''Bonjour'' \<noteq> []"
  by (simp_all add: bonjour_def js_def)

lemma atob_one_byte: "atob (js ''AA=='') = Inr [0]"
  by (simp add: atob_def forgiving_base64_decode_def strip_padding_def pad_def
      base64_alphabet_def js_def ascii_whitespace_def base64_value_def)

lemma decodePCM_odd:
  "atob X = Inr binaryString \<Longrightarrow> odd (length binaryString) \<Longrightarrow> decodePCM X = Inl RangeError"
  by (simp add: decodePCM_def new_Int16Array_def to_Uint8Array_def odd_iff_mod_2_eq_one)

lemma decodePCM_one_byte: "decodePCM (js ''AA=='') = Inl RangeError"
  using decodePCM_odd [OF atob_one_byte] by simp

lemma decodePCM_scenario: "decodePCM (js ''AAAAgA=='') = Inr [0, - 1]"
proof -
  have "decodePCM (encode_base64 [0x00, 0x00, 0x00, 0x80]) = Inr [0, - 1]"
    by (subst decodePCM_encode) (simp_all add: to_float32_def int16_le_def)
  then show ?thesis by (simp only: encode_scenario)
qed

subsection \<open>A payload of odd length\<close>

text \<open>
  C2. When the base64 payload decodes to an odd number of bytes, the decoding stage raises
  a RangeError (\<open>new Int16Array\<close> refuses the buffer) and produces no samples: the
  trailing byte is not dropped in silence. The \<open>try\<close> block of \<open>playPCMAudio\<close>
  receives the error: once a context is there, the events it adds are the call of
  \<open>atob\<close>, the error on the console, and the fallback utterance when the closure has
  a text; no playback is started.
\<close>

theorem C2_odd_length_is_an_error:
  assumes "atob X = Inr binaryString" and "odd (length binaryString)"
  shows "decodePCM X = Inl RangeError \<and>
         (\<forall>w1. ensure_context a w = Inr w1 \<longrightarrow>
            events (playPCMAudio r a X w) =
              events w1 @ [Atob X, Console_error RangeError]
              @ (if truthy (lastText r)
                 then [Speech_cancel, Speech_speak (the (lastText r)) (code (langConfig r))]
                 else []))"
proof -
  have d: "decodePCM X = Inl RangeError"
    using assms by (rule decodePCM_odd)
  then show ?thesis
    by (simp add: playPCMAudio_def playPCMAudio_catch_def world_defs Let_def)
qed

theorem C2_odd_length_is_an_error_witness:
  "atob (js ''AA=='') = Inr [0] \<and> odd (length [0 :: code_unit]) \<and>
   decodePCM (js ''AA=='') = Inl RangeError \<and>
   events (playPCMAudio (state initial) audio_fine (js ''AA=='') initial) =
     [New_AudioContext, Atob (js ''AA==''), Console_error RangeError]"
proof -
  have o: "odd (length [0 :: code_unit])" by simp
  have c: "ensure_context audio_fine initial = Inr (emit [New_AudioContext] (initial\<lparr>audioContext := True\<rparr>))"
    by (simp add: ensure_context_def initial_def audio_fine_def)
  from C2_odd_length_is_an_error [OF atob_one_byte o, of audio_fine initial "state initial"] c
  show ?thesis
    by (simp add: atob_one_byte initial_def emit_def)
qed

subsection \<open>The fallback after a failed decode\<close>

lemma after_a_capture_eq:
  "after_a_capture =
     \<lparr>state = \<lparr>selectedLang = Ca, isProcessing = False, error = None,
               lastText = Some (js ''Old''), audioData = Some (js ''AAAAgA=='')\<rparr>,
      audioContext = True,
      events = [ReadAsDataURL a_png,
                ExtractText (Some (js ''iVBORw=='')) (js ''image/png'') (js ''catal'' @ [0xE0]),
                GenerateSpeech (js ''Old'') (js ''Kore''),
                New_AudioContext, Atob (js ''AAAAgA==''), Start_playback [0, - 1]]\<rparr>"
  by (simp add: after_a_capture_def capture_defs play_defs world_defs decodePCM_scenario
      old_def langConfig_def initial_def a_png_def audio_fine_def second_def Let_def)
     (simp add: js_def)


text \<open>
  C3. The handler of \<open>playPCMAudio\<close> speaks the \<open>lastText\<close> of its own render, not
  the text the running capture has just recognized. On the first capture, where the render
  has no text, recognition gives \<open>Hello\<close>, the payload \<open>AA==\<close> has an odd length,
  and nothing is spoken. On the capture that follows one whose text was \<open>Old\<close>, the
  same failure speaks \<open>Old\<close>.
\<close>

theorem C3_fallback_uses_stale_lastText:
  "processImage (state initial) a_png
     \<lparr>ocr = Fulfilled hello, tts = Fulfilled (Some (js ''AA=='')), audio = audio_fine\<rparr> initial
   = (\<lparr>state = \<lparr>selectedLang = Ca, isProcessing = False, error = None,
                  lastText = Some (js ''Hello''), audioData = Some (js ''AA=='')\<rparr>,
        audioContext = True,
        events = [ReadAsDataURL a_png,
                  ExtractText (Some (js ''iVBORw=='')) (js ''image/png'') (js ''catal'' @ [0xE0]),
                  GenerateSpeech (js ''Hello'') (js ''Kore''),
                  New_AudioContext, Atob (js ''AA==''), Console_error RangeError]\<rparr>,
      Done)
   \<and>
   new_events after_a_capture
     (fst (processImage (state after_a_capture) a_png
        \<lparr>ocr = Fulfilled hello, tts = Fulfilled (Some (js ''AA=='')), audio = audio_fine\<rparr>
        after_a_capture))
   = [ReadAsDataURL a_png,
      ExtractText (Some (js ''iVBORw=='')) (js ''image/png'') (js ''catal'' @ [0xE0]),
      GenerateSpeech (js ''Hello'') (js ''Kore''),
      Atob (js ''AA==''), Console_error RangeError,
      Speech_cancel, Speech_speak (js ''Old'') (js ''ca-ES'')]"
  by (simp add: capture_defs play_defs world_defs decodePCM_one_byte js_nonempty hello_def
      langConfig_def initial_def after_a_capture_eq a_png_def audio_fine_def second_def
      new_events_def Let_def)
     (simp add: js_def)

subsection \<open>No text\<close>

lemma no_text_run:
  assumes "read_result f = Some url"
    and "ocr env = Fulfilled res"
    and "ocr_error res = Some (js ''NO_TEXT_FOUND'') \<or> ocr_text res = []"
  shows "processImage r f env w =
           (w\<lparr>state := (state w)\<lparr>isProcessing := False,
                                  error := Some (errorMsg (langConfig r)),
                                  lastText := None, audioData := None\<rparr>,
              events := events w @
                [ReadAsDataURL f,
                 ExtractText (second (split_on 0x2C url)) (file_type f) (prompt (langConfig r)),
                 Speech_cancel,
                 Speech_speak (errorMsg (langConfig r)) (code (langConfig r))]\<rparr>,
            Done)"
  using assms by (auto simp: capture_defs world_defs js_nonempty)

lemma extractText_sentinel: "extractText (Fulfilled (Some (js '' NO_TEXT_FOUND ''))) = Fulfilled no_text"
  by (simp add: extractText_def trim_def js_def js_whitespace_def no_text_def)

text \<open>
  C4. When the file has been read and the recognition result carries the error
  \<open>NO_TEXT_FOUND\<close> or an empty text, \<open>processImage\<close> ends after exactly these
  events: the read, the call of \<open>extractText\<close>, and the utterance of the language's
  \<open>errorMsg\<close>. The synthesis client is not called, the error shown is that message,
  and the processing flag is down.
\<close>

theorem C4_no_text_stops_before_synthesis:
  assumes "read_result f = Some url"
    and "ocr env = Fulfilled res"
    and "ocr_error res = Some (js ''NO_TEXT_FOUND'') \<or> ocr_text res = []"
  shows "snd (processImage r f env w) = Done \<and>
         new_events w (fst (processImage r f env w)) =
           [ReadAsDataURL f,
            ExtractText (second (split_on 0x2C url)) (file_type f) (prompt (langConfig r)),
            Speech_cancel,
            Speech_speak (errorMsg (langConfig r)) (code (langConfig r))] \<and>
         \<not> list_ex synthesis_call (new_events w (fst (processImage r f env w))) \<and>
         error (state (fst (processImage r f env w))) = Some (errorMsg (langConfig r)) \<and>
         \<not> isProcessing (state (fst (processImage r f env w)))"
  by (simp add: no_text_run [OF assms] new_events_def)

theorem C4_no_text_stops_before_synthesis_witness:
  "read_result a_png = Some (js ''data:image/png;base64,iVBORw=='') \<and>
   extractText (Fulfilled (Some (js '' NO_TEXT_FOUND ''))) = Fulfilled no_text \<and>
   ocr_error no_text = Some (js ''NO_TEXT_FOUND'') \<and>
   new_events initial
     (fst (processImage (state initial) a_png
             \<lparr>ocr = extractText (Fulfilled (Some (js '' NO_TEXT_FOUND ''))),
              tts = Fulfilled None, audio = audio_fine\<rparr> initial)) =
     [ReadAsDataURL a_png,
      ExtractText (Some (js ''iVBORw=='')) (js ''image/png'') (js ''catal'' @ [0xE0]),
      Speech_cancel,
      Speech_speak (js ''No s'ha detectat cap text a la imatge. Torna-ho a provar.'')
        (js ''ca-ES'')]"
proof -
  have f: "read_result a_png = Some (js ''data:image/png;base64,iVBORw=='')"
    by (simp add: a_png_def)
  have e: "ocr_error no_text = Some (js ''NO_TEXT_FOUND'')"
    by (simp add: no_text_def)
  have s: "second (split_on 0x2C (js ''data:image/png;base64,iVBORw=='')) = Some (js ''iVBORw=='')"
    by (simp add: js_def second_def)
  from C4_no_text_stops_before_synthesis
    [of a_png _ "\<lparr>ocr = Fulfilled no_text, tts = Fulfilled None, audio = audio_fine\<rparr>" no_text
        "state initial" initial, OF f _ disjI1 [OF e]]
  show ?thesis
    by (simp add: f e s extractText_sentinel langConfig_def initial_def) (simp add: a_png_def)
qed

subsection \<open>No payload\<close>

lemma no_payload_run:
  assumes "read_result f = Some url"
    and "ocr env = Fulfilled res"
    and "\<not> truthy (ocr_error res)" and "ocr_text res = T" and "T \<noteq> []"
    and "tts env = Fulfilled p" and "\<not> truthy p"
  shows "processImage r f env w =
           (w\<lparr>state := (state w)\<lparr>isProcessing := False, error := None,
                                  lastText := Some T, audioData := None\<rparr>,
              events := events w @
                [ReadAsDataURL f,
                 ExtractText (second (split_on 0x2C url)) (file_type f) (prompt (langConfig r)),
                 GenerateSpeech T (voice (langConfig r)),
                 Speech_cancel,
                 Speech_speak T (code (langConfig r))]\<rparr>,
            Done)"
  using assms by (auto simp: capture_defs world_defs)

text \<open>
  C5. When recognition gives a non-empty text \<open>T\<close> and the synthesis client gives no
  payload (null, or an empty string), the only utterance is \<open>T\<close> itself, in the
  locale of the selected language, and \<open>playPCMAudio\<close> does nothing: no context, no
  decoding, no playback.
\<close>

theorem C5_no_payload_announces_the_text:
  assumes "read_result f = Some url"
    and "ocr env = Fulfilled res"
    and "\<not> truthy (ocr_error res)" and "ocr_text res = T" and "T \<noteq> []"
    and "tts env = Fulfilled p" and "\<not> truthy p"
  shows "snd (processImage r f env w) = Done \<and>
         new_events w (fst (processImage r f env w)) =
           [ReadAsDataURL f,
            ExtractText (second (split_on 0x2C url)) (file_type f) (prompt (langConfig r)),
            GenerateSpeech T (voice (langConfig r)),
            Speech_cancel,
            Speech_speak T (code (langConfig r))] \<and>
         filter announcement (new_events w (fst (processImage r f env w))) =
           [Speech_speak T (code (langConfig r))] \<and>
         \<not> list_ex playback_call (new_events w (fst (processImage r f env w)))"
  by (simp add: no_payload_run [OF assms] new_events_def)

theorem C5_no_payload_announces_the_text_witness:
  "read_result a_png = Some (js ''data:image/png;base64,iVBORw=='') \<and>
   \<not> truthy (ocr_error hello) \<and> ocr_text hello = js ''Hello'' \<and> js ''Hello'' \<noteq> [] \<and>
   generateSpeech (Rejected ApiError) = Fulfilled None \<and> \<not> truthy None \<and>
   new_events initial
     (fst (processImage (state initial) a_png
             \<lparr>ocr = Fulfilled hello, tts = generateSpeech (Rejected ApiError),
              audio = audio_fine\<rparr> initial)) =
     [ReadAsDataURL a_png,
      ExtractText (Some (js ''iVBORw=='')) (js ''image/png'') (js ''catal'' @ [0xE0]),
      GenerateSpeech (js ''Hello'') (js ''Kore''),
      Speech_cancel,
      Speech_speak (js ''Hello'') (js ''ca-ES'')]"
proof -
  have g: "generateSpeech (Rejected ApiError) = Fulfilled None"
    by (simp add: generateSpeech_def)
  have n: "\<not> truthy None" by simp
  from C5_no_payload_announces_the_text
    [of a_png _ "\<lparr>ocr = Fulfilled hello, tts = Fulfilled None, audio = audio_fine\<rparr>" hello
        "js ''Hello''" None "state initial" initial,
     OF a_png_read _ hello_fields js_nonempty(2) _ n]
  show ?thesis
    by (simp add: a_png_read hello_fields js_nonempty g url_payload langConfig_def initial_def)
       (simp add: a_png_def)
qed

subsection \<open>A payload that plays\<close>

lemma payload_run:
  assumes "read_result f = Some url"
    and "ocr env = Fulfilled res"
    and "\<not> truthy (ocr_error res)" and "ocr_text res = T" and "T \<noteq> []"
    and "tts env = Fulfilled (Some p)" and "p \<noteq> []"
    and "decodePCM p = Inr samples" and "samples \<noteq> []"
    and "audioContext w \<or> context_ok (audio env)" and "start_ok (audio env)"
  shows "processImage r f env w =
           (w\<lparr>state := (state w)\<lparr>isProcessing := False, error := None,
                                  lastText := Some T, audioData := Some p\<rparr>,
              audioContext := True,
              events := events w @
                [ReadAsDataURL f,
                 ExtractText (second (split_on 0x2C url)) (file_type f) (prompt (langConfig r)),
                 GenerateSpeech T (voice (langConfig r))]
                @ (if audioContext w then [] else [New_AudioContext])
                @ [Atob p, Start_playback samples]\<rparr>,
            Done)"
  using assms by (auto simp: capture_defs play_defs world_defs Let_def)

text \<open>
  C6. When recognition gives a non-empty text and the synthesis client a payload that
  decodes to at least one sample, with a context at hand or obtainable and a playback that
  starts, the events after the call of \<open>generateSpeech\<close> are the creation of the context
  when there was none, the decoding of the payload, and the start of the playback of the
  decoded samples, in this order; nothing is spoken, and the payload is stored.
\<close>

theorem C6_payload_is_decoded_then_played:
  assumes "read_result f = Some url"
    and "ocr env = Fulfilled res"
    and "\<not> truthy (ocr_error res)" and "ocr_text res = T" and "T \<noteq> []"
    and "tts env = Fulfilled (Some p)" and "p \<noteq> []"
    and "decodePCM p = Inr samples" and "samples \<noteq> []"
    and "audioContext w \<or> context_ok (audio env)" and "start_ok (audio env)"
  shows "snd (processImage r f env w) = Done \<and>
         new_events w (fst (processImage r f env w)) =
           [ReadAsDataURL f,
            ExtractText (second (split_on 0x2C url)) (file_type f) (prompt (langConfig r)),
            GenerateSpeech T (voice (langConfig r))]
           @ (if audioContext w then [] else [New_AudioContext])
           @ [Atob p, Start_playback samples] \<and>
         \<not> list_ex announcement (new_events w (fst (processImage r f env w))) \<and>
         audioData (state (fst (processImage r f env w))) = Some p"
  by (simp add: payload_run [OF assms] new_events_def)

theorem C6_payload_is_decoded_then_played_witness:
  "read_result a_png = Some (js ''data:image/png;base64,iVBORw=='') \<and>
   \<not> truthy (ocr_error bonjour) \<and> ocr_text bonjour = js ''Bonjour'' \<and>
   decodePCM (js ''AAAAgA=='') = Inr [0, - 1] \<and>
   new_events french
     (fst (processImage (state french) a_png
             \<lparr>ocr = Fulfilled bonjour, tts = Fulfilled (Some (js ''AAAAgA=='')),
              audio = audio_fine\<rparr> french)) =
     [ReadAsDataURL a_png,
      ExtractText (Some (js ''iVBORw=='')) (js ''image/png'') (js ''fran'' @ [0xE7] @ js ''ais''),
      GenerateSpeech (js ''Bonjour'') (js ''Fenrir''),
      New_AudioContext, Atob (js ''AAAAgA==''), Start_playback [0, - 1]]"
proof -
  have p: "js ''AAAAgA=='' \<noteq> []" by (simp add: js_def)
  have s: "[0, - 1] \<noteq> ([] :: real list)" by simp
  have c: "audioContext french \<or>
           context_ok (audio \<lparr>ocr = Fulfilled bonjour, tts = Fulfilled (Some (js ''AAAAgA=='')),
              audio = audio_fine\<rparr>)"
    by (simp add: audio_fine_def)
  have k: "start_ok (audio \<lparr>ocr = Fulfilled bonjour, tts = Fulfilled (Some (js ''AAAAgA=='')),
              audio = audio_fine\<rparr>)"
    by (simp add: audio_fine_def)
  from C6_payload_is_decoded_then_played
    [of a_png _ "\<lparr>ocr = Fulfilled bonjour, tts = Fulfilled (Some (js ''AAAAgA=='')),
              audio = audio_fine\<rparr>" bonjour "js ''Bonjour''" "js ''AAAAgA==''" "[0, - 1]"
        french "state french",
     OF a_png_read _ bonjour_fields _ p decodePCM_scenario s c k]
  show ?thesis
    by (simp add: a_png_read bonjour_fields decodePCM_scenario url_payload langConfig_def
        french_def initial_def setSelectedLang_def)
       (simp add: a_png_def)
qed

subsection \<open>Replay\<close>

text \<open>
  C7. \<open>replayAudio\<close> with a stored payload is \<open>playPCMAudio\<close> on that payload,
  which decodes and plays it when it decodes and the playback starts; with no payload but
  a stored text it is the utterance of that text; with neither it leaves the world as it
  is: no event, no change of state.
\<close>

theorem C7_replay:
  "(\<forall>p. audioData r = Some p \<and> p \<noteq> [] \<longrightarrow>
        replayAudio r a w = playPCMAudio r a p w \<and>
        (\<forall>samples. audioContext w \<and> decodePCM p = Inr samples \<and> samples \<noteq> [] \<and> start_ok a \<longrightarrow>
           replayAudio r a w = emit [Atob p, Start_playback samples] w)) \<and>
   (\<forall>t. \<not> truthy (audioData r) \<and> lastText r = Some t \<and> t \<noteq> [] \<longrightarrow>
        replayAudio r a w = emit [Speech_cancel, Speech_speak t (code (langConfig r))] w) \<and>
   (\<not> truthy (audioData r) \<and> \<not> truthy (lastText r) \<longrightarrow> replayAudio r a w = w)"
  by (auto simp: replayAudio_def play_defs world_defs Let_def)

theorem C7_replay_witness:
  "replayAudio (state initial) audio_fine initial = initial \<and>
   replayAudio ((state initial)\<lparr>lastText := Some (js ''Hello'')\<rparr>) audio_fine initial =
     emit [Speech_cancel, Speech_speak (js ''Hello'') (js ''ca-ES'')] initial \<and>
   replayAudio ((state initial)\<lparr>lastText := Some (js ''Hello''),
                                audioData := Some (js ''AAAAgA=='')\<rparr>)
     audio_fine (initial\<lparr>audioContext := True\<rparr>) =
     emit [Atob (js ''AAAAgA==''), Start_playback [0, - 1]] (initial\<lparr>audioContext := True\<rparr>)"
proof -
  have p: "js ''AAAAgA=='' \<noteq> []" by (simp add: js_def)
  note a = C7_replay [of "state initial" audio_fine initial]
  note b = C7_replay [of "(state initial)\<lparr>lastText := Some (js ''Hello'')\<rparr>" audio_fine initial]
  note c = C7_replay [of "(state initial)\<lparr>lastText := Some (js ''Hello''),
                                audioData := Some (js ''AAAAgA=='')\<rparr>" audio_fine
                         "initial\<lparr>audioContext := True\<rparr>"]
  have 1: "replayAudio (state initial) audio_fine initial = initial"
    using a by (simp add: initial_def)
  have 2: "replayAudio ((state initial)\<lparr>lastText := Some (js ''Hello'')\<rparr>) audio_fine initial =
     emit [Speech_cancel, Speech_speak (js ''Hello'') (js ''ca-ES'')] initial"
    using b by (simp add: initial_def js_nonempty langConfig_def)
  have 3: "replayAudio ((state initial)\<lparr>lastText := Some (js ''Hello''),
                                audioData := Some (js ''AAAAgA=='')\<rparr>)
     audio_fine (initial\<lparr>audioContext := True\<rparr>) =
     emit [Atob (js ''AAAAgA==''), Start_playback [0, - 1]] (initial\<lparr>audioContext := True\<rparr>)"
    by (rule c [THEN conjunct1, rule_format, of "js ''AAAAgA==''", THEN conjunct2, rule_format,
                of "[0, - 1]"])
       (simp_all add: p decodePCM_scenario audio_fine_def)
  from 1 2 3 show ?thesis by blast
qed

subsection \<open>One capture at a time\<close>

lemma after_read_busy:
  "isProcessing (state (fst (after_read r f w))) = isProcessing (state w)"
  by (simp add: after_read_def emit_def split: option.splits)

lemma after_extractText_busy:
  "snd (after_extractText r res w) \<noteq> Done \<Longrightarrow>
   isProcessing (state (fst (after_extractText r res w))) = isProcessing (state w)"
  by (auto simp: after_extractText_def world_defs split: settled.splits if_splits)

lemma after_generateSpeech_done: "snd (after_generateSpeech r t res a w) = Done"
  by (simp add: after_generateSpeech_def split: settled.splits)

lemma settle_single:
  assumes "length ts \<le> 1" and "i < length ts"
    and "snd res \<noteq> Done \<Longrightarrow> isProcessing (state (fst res))"
  shows "single_flight (settle i r res ts)"
  using assms by (auto simp: single_flight_def settle_def)

lemma step_single_flight:
  assumes "step s s'" and "single_flight s"
  shows "single_flight s'"
  using assms
proof (induction rule: step.induct)
  case (capture w ts files)
  then have "ts = []" by (auto simp: single_flight_def capture_disabled_def)
  then show ?case
    by (cases files) (simp_all add: single_flight_def handleFileChange_def
        processImage_begin_def world_defs)
next
  case (read_ended i ts r f w)
  then have "isProcessing (state w)" "length ts \<le> 1"
    by (auto simp: single_flight_def)
  with read_ended show ?case
    by (intro settle_single) (simp_all add: after_read_busy)
next
  case (extractText_settled i ts r w res)
  then have "isProcessing (state w)" "length ts \<le> 1"
    by (auto simp: single_flight_def)
  with extractText_settled show ?case
    by (intro settle_single) (simp_all add: after_extractText_busy)
next
  case (generateSpeech_settled i ts r t w res a)
  then have "length ts \<le> 1" by (auto simp: single_flight_def)
  with generateSpeech_settled show ?case
    by (intro settle_single) (simp_all add: after_generateSpeech_done)
next
  case (replay w ts a)
  then have "ts = []" by (auto simp: single_flight_def replay_disabled_def)
  then show ?case by (simp add: single_flight_def)
next
  case (select_language w ts k)
  then show ?case by (simp add: single_flight_def setSelectedLang_def)
qed

lemma reachable_single_flight: "reachable s \<Longrightarrow> single_flight s"
proof (induction rule: reachable.induct)
  case at_start
  show ?case by (simp add: single_flight_def)
next
  case (after_step s s')
  then show ?case by (simp add: step_single_flight)
qed

lemma first_capture_eq:
  "first_capture =
     (\<lparr>state = \<lparr>selectedLang = Ca, isProcessing = True, error = None, lastText = None,
                 audioData = None\<rparr>,
       audioContext = False,
       events = [ReadAsDataURL a_png,
                 ExtractText (Some (js ''iVBORw=='')) (js ''image/png'') (js ''catal'' @ [0xE0])]\<rparr>,
      [(state initial, Recognizing)])"
  by (simp add: first_capture_def handleFileChange_def processImage_begin_def settle_def
      after_read_def world_defs initial_def a_png_def langConfig_def second_def)
     (simp add: js_def)

lemma reachable_first_capture: "reachable first_capture"
proof -
  have "\<not> capture_disabled (state initial)"
    by (simp add: capture_disabled_def initial_def)
  then have "step (initial, []) (handleFileChange (Some a_png) (initial, []))"
    by (rule step.capture)
  with reachable.at_start have r1: "reachable (handleFileChange (Some a_png) (initial, []))"
    by (rule reachable.after_step)
  obtain w where h: "handleFileChange (Some a_png) (initial, []) = (w, [(state initial, Reading a_png)])"
    by (simp add: handleFileChange_def processImage_begin_def)
  have "step (w, [(state initial, Reading a_png)])
          (settle 0 (state initial) (after_read (state initial) a_png w) [(state initial, Reading a_png)])"
    by (rule step.read_ended) simp_all
  with r1 h have "reachable (settle 0 (state initial) (after_read (state initial) a_png w) [(state initial, Reading a_png)])"
    by (metis reachable.after_step)
  with h show ?thesis by (simp add: first_capture_def)
qed

text \<open>
  C8. A capture starts when one of the two capture buttons, which are disabled while
  \<open>isProcessing\<close> is set, delivers a file, and \<open>isProcessing\<close> is set for as long
  as a call of \<open>processImage\<close> is in flight. So in every state the application can
  reach at most one call is in flight, and while one is, the capture buttons are disabled:
  a second capture cannot start the recognition before the first call has ended. The
  guard is the buttons' attribute; \<open>handleFileChange\<close> itself has none.
\<close>

theorem C8_single_flight_behind_the_buttons:
  "reachable s \<Longrightarrow>
   in_flight s \<le> 1 \<and> (in_flight s = 1 \<longrightarrow> capture_disabled (state (fst s)))"
  using reachable_single_flight [of s]
  by (auto simp: single_flight_def in_flight_def capture_disabled_def)

theorem C8_single_flight_behind_the_buttons_witness:
  "reachable first_capture \<and> in_flight first_capture = 1 \<and>
   capture_disabled (state (fst first_capture))"
  using C8_single_flight_behind_the_buttons [OF reachable_first_capture]
    reachable_first_capture
  by (simp add: first_capture_eq in_flight_def)

subsection \<open>The top-level handler\<close>

lemma failed_read_stalls:
  "read_result f = None \<Longrightarrow>
   processImage r f env w =
     (emit [ReadAsDataURL f, Uncaught_error TypeError]
        (setAudioData None (setLastText None (setError None (setIsProcessing True w)))),
      Stalled)"
  by (simp add: capture_defs world_defs)

text \<open>
  C9. The promise around the \<open>FileReader\<close> is awaited inside the \<open>try\<close> block but
  has no reject path. When the read of the file fails, \<open>split\<close> is applied to null
  inside the \<open>loadend\<close> callback: the TypeError is thrown outside
  \<open>processImage\<close> and no handler receives it, the promise never settles, and the call
  stays where it is for ever: no message is set, nothing is spoken, and the processing
  flag stays up.
\<close>

theorem C9_failed_read_escapes_the_handler:
  "processImage (state initial) unreadable_png
     \<lparr>ocr = Fulfilled hello, tts = Fulfilled None, audio = audio_fine\<rparr> initial
   = (\<lparr>state = \<lparr>selectedLang = Ca, isProcessing = True, error = None,
                  lastText = None, audioData = None\<rparr>,
        audioContext = False,
        events = [ReadAsDataURL unreadable_png, Uncaught_error TypeError]\<rparr>,
      Stalled)"
  by (simp add: failed_read_stalls unreadable_png_def world_defs initial_def)

section \<open>The recognition client\<close>

text \<open>
  C10. \<open>extractText\<close> always fulfils its promise. Exactly one of a non-empty text and
  an error is set in the result. The error is \<open>API_ERROR\<close> when the call of the model
  is rejected, and \<open>NO_TEXT_FOUND\<close> when the answer of the model is absent, or trimmed
  is empty or is the string \<open>NO_TEXT_FOUND\<close>; in both cases the text is empty.
  Otherwise the result is the trimmed answer with no error.
\<close>

theorem C10_extractText:
  "(\<exists>res. extractText response = Fulfilled res \<and>
          (ocr_text res \<noteq> [] \<and> ocr_error res = None \<or>
           ocr_text res = [] \<and>
           (ocr_error res = Some (js ''NO_TEXT_FOUND'') \<or> ocr_error res = Some (js ''API_ERROR'')))) \<and>
   (\<forall>err. response = Rejected err \<longrightarrow>
      extractText response = Fulfilled \<lparr>ocr_text = [], ocr_error = Some (js ''API_ERROR'')\<rparr>) \<and>
   (response = Fulfilled None \<longrightarrow>
      extractText response = Fulfilled \<lparr>ocr_text = [], ocr_error = Some (js ''NO_TEXT_FOUND'')\<rparr>) \<and>
   (\<forall>s. response = Fulfilled (Some s) \<and> (trim s = [] \<or> trim s = js ''NO_TEXT_FOUND'') \<longrightarrow>
      extractText response = Fulfilled \<lparr>ocr_text = [], ocr_error = Some (js ''NO_TEXT_FOUND'')\<rparr>) \<and>
   (\<forall>s. response = Fulfilled (Some s) \<and> trim s \<noteq> [] \<and> trim s \<noteq> js ''NO_TEXT_FOUND'' \<longrightarrow>
      extractText response = Fulfilled \<lparr>ocr_text = trim s, ocr_error = None\<rparr>)"
  by (cases response) (auto simp: extractText_def Let_def split: option.splits)

theorem C10_extractText_witness:
  "extractText (Fulfilled (Some (js '' NO_TEXT_FOUND ''))) =
     Fulfilled \<lparr>ocr_text = [], ocr_error = Some (js ''NO_TEXT_FOUND'')\<rparr> \<and>
   extractText (Fulfilled (Some (js ''   ''))) =
     Fulfilled \<lparr>ocr_text = [], ocr_error = Some (js ''NO_TEXT_FOUND'')\<rparr> \<and>
   extractText (Rejected ApiError) =
     Fulfilled \<lparr>ocr_text = [], ocr_error = Some (js ''API_ERROR'')\<rparr> \<and>
   extractText (Fulfilled (Some (js '' Hello ''))) =
     Fulfilled \<lparr>ocr_text = js ''Hello'', ocr_error = None\<rparr>"
proof -
  have t1: "trim (js '' NO_TEXT_FOUND '') = js ''NO_TEXT_FOUND''"
    by (simp add: trim_def js_def js_whitespace_def)
  have t2: "trim (js ''   '') = []"
    by (simp add: trim_def js_def js_whitespace_def)
  have t3: "trim (js '' Hello '') = js ''Hello''" "js ''Hello'' \<noteq> js ''NO_TEXT_FOUND''"
    by (simp_all add: trim_def js_def js_whitespace_def)
  from C10_extractText [of "Fulfilled (Some (js '' NO_TEXT_FOUND ''))"]
       C10_extractText [of "Fulfilled (Some (js ''   ''))"]
       C10_extractText [of "Rejected ApiError"]
       C10_extractText [of "Fulfilled (Some (js '' Hello ''))"]
  show ?thesis
    by (simp add: t1 t2 t3 js_nonempty)
qed

text \<open>
  With the two services as they are written, no awaited call of \<open>processImage\<close> is
  ever rejected: the failed read is the one failure a capture can meet.
\<close>

lemma services_never_reject:
  "(\<exists>res. extractText x = Fulfilled res) \<and> (\<exists>p. generateSpeech y = Fulfilled p)"
  by (cases x; cases y) (simp_all add: extractText_def generateSpeech_def Let_def)

end
